theory Spec2Isabelle
  imports Complex_Main
begin

section \<open>tail\_tiles: a shallow embedding of \<^verbatim>\<open>src/tail_tiles.py\<close>\<close>

subsection \<open>The operating system as seen by the program\<close>

text \<open>
  The program touches the outside world through two library calls only:
  \<^verbatim>\<open>os.stat(path)\<close> and \<^verbatim>\<open>open(path, 'r', encoding='utf-8', errors='replace')\<close>
  followed by \<^verbatim>\<open>readlines()\<close>. A file system assigns to every path what these two calls
  observe. The two observations are independent on purpose (a file may be visible to
  \<^verbatim>\<open>stat\<close> and unreadable, or change between the two calls).

  \<^item> \<open>fv_stat\<close>: the pair \<^verbatim>\<open>(st_mtime, st_size)\<close>, or the errno class of the failure.
    \<^verbatim>\<open>st_mtime\<close> is a finite float that is only ever compared for equality, so it is a
    \<open>real\<close>; Python's \<^verbatim>\<open>0.0 == 0\<close> makes the initial signature \<^verbatim>\<open>(0.0, 0)\<close> and the
    sentinel \<^verbatim>\<open>(0, 0)\<close> the same value.
  \<^item> \<open>fv_text\<close>: the text the text-mode stream delivers (decoded with replacement of
    malformed input, so decoding never fails; line endings already translated to line
    feed by the stream), or the errno class of the failure of \<^verbatim>\<open>open\<close> or of the read.
\<close>

datatype os_errno = ENOENT | EACCES | EOTHER

datatype py_exception =
  FileNotFoundError | PermissionError | OSError | ValueError | UnicodeEncodeError

text \<open>
  \<^verbatim>\<open>isinstance(e, OSError)\<close>: the first two classes are subclasses of \<^verbatim>\<open>OSError\<close>;
  \<^verbatim>\<open>UnicodeEncodeError\<close> is a subclass of \<^verbatim>\<open>ValueError\<close>, and neither is an \<^verbatim>\<open>OSError\<close>.
\<close>

fun is_OSError :: "py_exception \<Rightarrow> bool" where
  "is_OSError FileNotFoundError = True"
| "is_OSError PermissionError = True"
| "is_OSError OSError = True"
| "is_OSError ValueError = False"
| "is_OSError UnicodeEncodeError = False"

text \<open>The exception class the interpreter raises for an errno class.\<close>

fun raise_errno :: "os_errno \<Rightarrow> py_exception" where
  "raise_errno ENOENT = FileNotFoundError"
| "raise_errno EACCES = PermissionError"
| "raise_errno EOTHER = OSError"

type_synonym stat_sig = "real \<times> int"

record file_view =
  fv_stat :: "os_errno + stat_sig"
  fv_text :: "os_errno + string"

text \<open>
  A path is a Python \<^verbatim>\<open>str\<close>: a sequence of code points. Before any system call the
  interpreter converts it to an operating-system path, and that conversion fails for two
  kinds of \<^verbatim>\<open>str\<close> (POSIX, file-system encoding UTF-8 with the \<^verbatim>\<open>surrogateescape\<close> handler):
  a lone surrogate outside \<^verbatim>\<open>U+DC80..U+DCFF\<close> cannot be encoded and raises
  \<^verbatim>\<open>UnicodeEncodeError\<close>; an embedded null character raises \<^verbatim>\<open>ValueError\<close>. The encoding
  comes first. Neither exception is an \<^verbatim>\<open>OSError\<close>.
\<close>

type_synonym path = "nat list"

definition unencodable :: "nat \<Rightarrow> bool" where
  "unencodable c \<longleftrightarrow> 0xD800 \<le> c \<and> c \<le> 0xDFFF \<and> \<not> (0xDC80 \<le> c \<and> c \<le> 0xDCFF)"

definition fs_convert :: "path \<Rightarrow> py_exception option" where
  "fs_convert p =
     (if \<exists>c\<in>set p. unencodable c then Some UnicodeEncodeError
      else if 0 \<in> set p then Some ValueError
      else None)"

definition os_path_ok :: "path \<Rightarrow> bool" where
  "os_path_ok p \<longleftrightarrow> fs_convert p = None"

type_synonym filesystem = "path \<Rightarrow> file_view"

definition LF :: char where
  "LF = CHR 0x0A"

definition CR :: char where
  "CR = CHR 0x0D"

text \<open>
  \<^verbatim>\<open>os.stat(path)\<close>: the conversion of the path, then the system call.
\<close>

definition os_stat :: "filesystem \<Rightarrow> path \<Rightarrow> py_exception + stat_sig" where
  "os_stat fs p =
     (case fs_convert p of
        Some e \<Rightarrow> Inl e
      | None \<Rightarrow>
          (case fv_stat (fs p) of
             Inl errno \<Rightarrow> Inl (raise_errno errno)
           | Inr st \<Rightarrow> Inr st))"

text \<open>
  \<^verbatim>\<open>f.readlines()\<close> on a text: the text is cut after every line feed, the line feed stays
  at the end of its line, and a last piece without line feed is a line of its own.
\<close>

fun readlines :: "string \<Rightarrow> string list" where
  "readlines [] = []"
| "readlines (c # cs) =
     (if c = LF then [c] # readlines cs
      else (case readlines cs of
              [] \<Rightarrow> [[c]]
            | l # ls \<Rightarrow> (c # l) # ls))"

text \<open>\<^verbatim>\<open>open(path, 'r', ...)\<close> and \<^verbatim>\<open>f.readlines()\<close> inside the \<^verbatim>\<open>with\<close> block.\<close>

definition open_readlines :: "filesystem \<Rightarrow> path \<Rightarrow> py_exception + string list" where
  "open_readlines fs p =
     (case fs_convert p of
        Some e \<Rightarrow> Inl e
      | None \<Rightarrow>
          (case fv_text (fs p) of
             Inl errno \<Rightarrow> Inl (raise_errno errno)
           | Inr text \<Rightarrow> Inr (readlines text)))"

subsection \<open>Built-in operations of the language\<close>

text \<open>\<^verbatim>\<open>s.rstrip(chars)\<close>: drop every trailing character that occurs in \<open>chars\<close>.\<close>

definition rstrip :: "string \<Rightarrow> string \<Rightarrow> string" where
  "rstrip s chars = rev (dropWhile (\<lambda>c. c \<in> set chars) (rev s))"

text \<open>
  The slice \<^verbatim>\<open>xs[start:]\<close>: a negative start counts from the end, and a start outside
  the list is clipped to it.
\<close>

definition slice_from :: "'a list \<Rightarrow> int \<Rightarrow> 'a list" where
  "slice_from xs start =
     (if start < 0 then drop (nat (int (length xs) + start)) xs
      else drop (nat start) xs)"

subsection \<open>Module-level functions\<close>

text \<open>
  \<^verbatim>\<open>read_last_n_lines\<close> (lines 22--29). The handler
  \<^verbatim>\<open>except (FileNotFoundError, PermissionError, OSError)\<close> catches an exception that is an
  instance of one of the three classes; any other exception leaves the function.
\<close>

definition read_last_n_lines :: "filesystem \<Rightarrow> path \<Rightarrow> int \<Rightarrow> py_exception + string list" where
  "read_last_n_lines fs filepath n =
     (case open_readlines fs filepath of
        Inr raw \<Rightarrow>
          (let stripped = map (\<lambda>line. rstrip line [LF, CR]) raw
           in Inr (if stripped \<noteq> [] then slice_from stripped (- n) else []))
      | Inl e \<Rightarrow>
          (if e = FileNotFoundError \<or> e = PermissionError \<or> is_OSError e then Inr []
           else Inl e))"

text \<open>\<^verbatim>\<open>clamp\<close> (lines 32--34).\<close>

definition clamp :: "int \<Rightarrow> int \<Rightarrow> int \<Rightarrow> int" where
  "clamp val min_val max_val = max min_val (min val max_val)"

subsection \<open>TailTile\<close>

text \<open>
  The attributes \<^verbatim>\<open>filepath\<close>, \<^verbatim>\<open>lines\<close>, \<^verbatim>\<open>_content\<close> and \<^verbatim>\<open>_last_stat\<close>.
\<close>

record tail_tile =
  filepath :: path
  lines :: int
  content :: "string list"
  last_stat :: stat_sig

text \<open>\<^verbatim>\<open>TailTile.__init__\<close> (lines 40--44).\<close>

definition TailTile :: "path \<Rightarrow> int \<Rightarrow> tail_tile" where
  "TailTile fp n = \<lparr>filepath = fp, lines = n, content = [], last_stat = (0, 0)\<rparr>"

text \<open>
  \<^verbatim>\<open>TailTile.update\<close> (lines 46--61). The method mutates the object and either returns a
  truth value or raises, so the model returns the outcome together with the object as
  the call leaves it. The assignment to \<^verbatim>\<open>_last_stat\<close> precedes the read, so it survives
  an exception of the read.
\<close>

definition update :: "filesystem \<Rightarrow> tail_tile \<Rightarrow> (py_exception + bool) \<times> tail_tile" where
  "update fs self =
     (case os_stat fs (filepath self) of
        Inl e \<Rightarrow>
          (if is_OSError e then
             (if content self \<noteq> [] then (Inr True, self\<lparr>content := []\<rparr>)
              else (Inr False, self))
           else (Inl e, self))
      | Inr current \<Rightarrow>
          (if current \<noteq> last_stat self then
             (let self1 = self\<lparr>last_stat := current\<rparr>
              in (case read_last_n_lines fs (filepath self1) (lines self1) of
                    Inl e \<Rightarrow> (Inl e, self1)
                  | Inr ls \<Rightarrow> (Inr True, self1\<lparr>content := ls\<rparr>)))
           else (Inr False, self)))"

subsection \<open>TileRenderer\<close>

text \<open>
  The attributes of the renderer that the line-count logic uses; the curses screen
  handle takes no part in it and is left out. The tiles are the renderer's own list of
  objects, so a mutation of a tile is an update of that list.
\<close>

record tile_renderer =
  tiles :: "tail_tile list"
  rows :: int
  cols :: int
  line_count :: int

text \<open>\<^verbatim>\<open>TileRenderer.__init__\<close> (lines 70--74).\<close>

definition TileRenderer :: "tail_tile list \<Rightarrow> int \<times> int \<Rightarrow> tile_renderer" where
  "TileRenderer ts layout =
     \<lparr>tiles = ts, rows = fst layout, cols = snd layout,
      line_count = (case ts of [] \<Rightarrow> 10 | t # _ \<Rightarrow> lines t)\<rparr>"

text \<open>\<^verbatim>\<open>TileRenderer.adjust_lines\<close> (lines 137--142).\<close>

definition adjust_lines :: "tile_renderer \<Rightarrow> int \<Rightarrow> tile_renderer" where
  "adjust_lines self delta =
     (let lc = clamp (line_count self + delta) 1 100
      in self\<lparr>line_count := lc,
              tiles := map (\<lambda>tile. tile\<lparr>lines := lc, last_stat := (0, 0)\<rparr>) (tiles self)\<rparr>)"

subsection \<open>The polling step of the viewer loop\<close>

text \<open>
  Lines 159--161 of \<^verbatim>\<open>run_viewer\<close>: every tile is updated in turn and a change sets the
  redraw flag. An exception of one update ends the loop with the later tiles untouched.
\<close>

fun poll_tiles :: "filesystem \<Rightarrow> tail_tile list \<Rightarrow> bool \<Rightarrow> (py_exception + bool) \<times> tail_tile list" where
  "poll_tiles fs [] redraw = (Inr redraw, [])"
| "poll_tiles fs (tile # rest) redraw =
     (case update fs tile of
        (Inl e, tile') \<Rightarrow> (Inl e, tile' # rest)
      | (Inr changed, tile') \<Rightarrow>
          (case poll_tiles fs rest (if changed then True else redraw) of
             (r, rest') \<Rightarrow> (r, tile' # rest')))"

subsection \<open>List objects and \<^verbatim>\<open>get_content\<close>\<close>

text \<open>
  \<^verbatim>\<open>get_content\<close> (lines 63--64) returns \<^verbatim>\<open>self._content.copy()\<close>. What it promises is
  about object identity, so here the list objects live in a store, addressed by their
  position, and the attribute \<^verbatim>\<open>_content\<close> holds an address. \<open>tile_of\<close> reads a tile
  object back as the value-level tile of the previous sections.
\<close>

type_synonym addr = nat

type_synonym store = "string list list"

record tile_obj =
  obj_filepath :: path
  obj_lines :: int
  obj_content :: addr
  obj_last_stat :: stat_sig

definition tile_of :: "store \<Rightarrow> tile_obj \<Rightarrow> tail_tile" where
  "tile_of h obj =
     \<lparr>filepath = obj_filepath obj, lines = obj_lines obj,
      content = h ! obj_content obj, last_stat = obj_last_stat obj\<rparr>"

text \<open>\<^verbatim>\<open>list.copy()\<close> allocates a new list object holding the same elements.\<close>

definition list_copy :: "store \<Rightarrow> addr \<Rightarrow> addr \<times> store" where
  "list_copy h a = (length h, h @ [h ! a])"

definition get_content :: "store \<Rightarrow> tile_obj \<Rightarrow> addr \<times> store" where
  "get_content h self = list_copy h (obj_content self)"

text \<open>
  What a caller can do to a list it holds: \<^verbatim>\<open>append\<close>, \<^verbatim>\<open>del xs[i]\<close>, \<^verbatim>\<open>xs[i] = x\<close> and
  \<^verbatim>\<open>clear\<close>. An index out of range raises \<^verbatim>\<open>IndexError\<close> and leaves the list as it was.
\<close>

datatype list_mutation = Append string | DelItem nat | SetItem nat string | Clear

fun apply_mutation :: "list_mutation \<Rightarrow> string list \<Rightarrow> string list" where
  "apply_mutation (Append x) xs = xs @ [x]"
| "apply_mutation (DelItem i) xs = (if i < length xs then take i xs @ drop (Suc i) xs else xs)"
| "apply_mutation (SetItem i x) xs = (if i < length xs then xs[i := x] else xs)"
| "apply_mutation Clear xs = []"

definition mutate :: "store \<Rightarrow> addr \<Rightarrow> list_mutation \<Rightarrow> store" where
  "mutate h r m = h[r := apply_mutation m (h ! r)]"

definition mutate_all :: "store \<Rightarrow> addr \<Rightarrow> list_mutation list \<Rightarrow> store" where
  "mutate_all h r ms = foldl (\<lambda>s m. mutate s r m) h ms"

subsection \<open>The specification's vocabulary\<close>


fun spec_strip :: "string \<Rightarrow> string" where
  "spec_strip [] = []"
| "spec_strip (c # cs) =
     (if spec_strip cs = [] \<and> (c = LF \<or> c = CR) then [] else c # spec_strip cs)"

definition spec_last_n :: "nat \<Rightarrow> 'a list \<Rightarrow> 'a list" where
  "spec_last_n k xs = drop (length xs - k) xs"

text \<open>The invariant of the specification's data model on a tile.\<close>

definition cache_bounded :: "tail_tile \<Rightarrow> bool" where
  "cache_bounded t \<longleftrightarrow> int (length (content t)) \<le> lines t"

subsection \<open>Example inputs\<close>

text \<open>The paths \<^verbatim>\<open>a.log\<close>, \<^verbatim>\<open>b.log\<close> and \<^verbatim>\<open>c.log\<close> as code points.\<close>

definition a_log :: path where
  "a_log = [97, 46, 108, 111, 103]"

definition b_log :: path where
  "b_log = [98, 46, 108, 111, 103]"

definition c_log :: path where
  "c_log = [99, 46, 108, 111, 103]"

text \<open>
  Two paths that name no file and cannot be converted: \<^verbatim>\<open>a\<close>, a null character, \<^verbatim>\<open>b\<close>;
  and \<^verbatim>\<open>a\<close>, the lone surrogate \<^verbatim>\<open>U+D800\<close>, \<^verbatim>\<open>b\<close>.
\<close>

definition nul_path :: path where
  "nul_path = [97, 0, 98]"

definition surrogate_path :: path where
  "surrogate_path = [97, 0xD800, 98]"

definition absent :: file_view where
  "absent = \<lparr>fv_stat = Inl ENOENT, fv_text = Inl ENOENT\<rparr>"

text \<open>One file \<^verbatim>\<open>a.log\<close> of three lines.\<close>

definition fs_three :: filesystem where
  "fs_three p =
     (if p = a_log
      then \<lparr>fv_stat = Inr (5, 6), fv_text = Inr [CHR ''x'', LF, CHR ''y'', LF, CHR ''z'', LF]\<rparr>
      else absent)"

text \<open>The same path after the file has been deleted.\<close>

definition fs_none :: filesystem where
  "fs_none p = absent"

text \<open>The same path holding an empty file whose modification time is the epoch.\<close>

definition fs_epoch :: filesystem where
  "fs_epoch p =
     (if p = a_log then \<lparr>fv_stat = Inr (0, 0), fv_text = Inr []\<rparr> else absent)"

text \<open>A second file \<^verbatim>\<open>b.log\<close> beside a deleted \<^verbatim>\<open>a.log\<close>.\<close>

definition fs_other :: filesystem where
  "fs_other p =
     (if p = b_log
      then \<lparr>fv_stat = Inr (9, 2), fv_text = Inr [CHR ''w'', LF]\<rparr>
      else absent)"

definition tile_a :: tail_tile where
  "tile_a = \<lparr>filepath = a_log, lines = 10, content = [''x'', ''y'', ''z''], last_stat = (5, 6)\<rparr>"

definition tile_b :: tail_tile where
  "tile_b = \<lparr>filepath = b_log, lines = 10, content = [''w''], last_stat = (9, 2)\<rparr>"

text \<open>The file \<^verbatim>\<open>a.log\<close> changed and no longer readable by the user.\<close>

definition fs_locked :: filesystem where
  "fs_locked p =
     (if p = a_log then \<lparr>fv_stat = Inr (7, 6), fv_text = Inl EACCES\<rparr> else absent)"

text \<open>A tile object whose cache is the list object at address 0.\<close>

definition obj_a :: tile_obj where
  "obj_a = \<lparr>obj_filepath = a_log, obj_lines = 10, obj_content = 0, obj_last_stat = (5, 6)\<rparr>"

section \<open>Properties\<close>

lemmas path_defs =
  fs_convert_def os_path_ok_def unencodable_def a_log_def b_log_def c_log_def

subsection \<open>Auxiliary facts\<close>

lemma spec_strip_Nil_iff: "spec_strip s = [] \<longleftrightarrow> (\<forall>x\<in>set s. x = LF \<or> x = CR)"
  by (induction s) auto

lemma rstrip_spec_strip: "rstrip s [LF, CR] = spec_strip s"
proof (induction s)
  case Nil
  show ?case by (simp add: rstrip_def)
next
  case (Cons c cs)
  have ih: "dropWhile (\<lambda>x. x = LF \<or> x = CR) (rev cs) = rev (spec_strip cs)"
    using Cons.IH [symmetric] by (simp add: rstrip_def)
  show ?case
  proof (cases "\<forall>x\<in>set cs. x = LF \<or> x = CR")
    case True
    then have "spec_strip cs = []" by (simp add: spec_strip_Nil_iff)
    with True show ?thesis
      by (simp add: rstrip_def dropWhile_append)
  next
    case False
    then show ?thesis
      using ih by (simp add: rstrip_def dropWhile_append spec_strip_Nil_iff)
  qed
qed

lemma readlines_Nil_iff: "readlines t = [] \<longleftrightarrow> t = []"
  by (cases t) (auto split: list.splits)


lemma spec_strip_LF: "spec_strip [LF] = []"
  by simp


lemma slice_from_last_n: "1 \<le> n \<Longrightarrow> slice_from xs (- n) = spec_last_n (nat n) xs"
proof -
  assume n: "1 \<le> n"
  have "nat (int (length xs) - n) = length xs - nat n" using n by linarith
  with n show ?thesis by (simp add: slice_from_def spec_last_n_def)
qed

lemma slice_from_zero: "slice_from xs 0 = xs"
  by (simp add: slice_from_def)

lemma read_ok:
  "open_readlines fs p = Inr raw \<Longrightarrow>
   read_last_n_lines fs p n = Inr (if raw \<noteq> [] then slice_from (map spec_strip raw) (- n) else [])"
  by (simp add: read_last_n_lines_def rstrip_spec_strip)

lemma os_stat_convertible:
  "os_path_ok p \<Longrightarrow>
   os_stat fs p = (case fv_stat (fs p) of Inl errno \<Rightarrow> Inl (raise_errno errno) | Inr st \<Rightarrow> Inr st)"
  by (simp add: os_stat_def os_path_ok_def)

lemma open_readlines_convertible:
  "os_path_ok p \<Longrightarrow>
   open_readlines fs p =
     (case fv_text (fs p) of Inl errno \<Rightarrow> Inl (raise_errno errno) | Inr body \<Rightarrow> Inr (readlines body))"
  by (simp add: open_readlines_def os_path_ok_def)

lemma fs_convert_Some:
  "fs_convert p = Some e \<Longrightarrow> (e = ValueError \<or> e = UnicodeEncodeError) \<and> \<not> os_path_ok p"
  by (auto simp: fs_convert_def os_path_ok_def split: if_splits)

lemma read_returns_convertible:
  assumes "os_path_ok p"
  shows "\<exists>ls. read_last_n_lines fs p n = Inr ls"
proof (cases "fv_text (fs p)")
  case (Inl errno)
  with assms show ?thesis
    by (cases errno) (simp_all add: read_last_n_lines_def open_readlines_convertible)
next
  case (Inr body)
  with assms show ?thesis
    by (simp add: read_last_n_lines_def open_readlines_convertible Let_def)
qed


lemma update_stat_fail:
  "os_stat fs (filepath t) = Inl e \<Longrightarrow> is_OSError e \<Longrightarrow>
   update fs t = (Inr (content t \<noteq> []), t\<lparr>content := []\<rparr>)"
  by (simp add: update_def)

lemma update_same:
  "os_stat fs (filepath t) = Inr s \<Longrightarrow> s = last_stat t \<Longrightarrow> update fs t = (Inr False, t)"
  by (simp add: update_def)

lemma os_stat_ok_convertible: "os_stat fs p = Inr s \<Longrightarrow> os_path_ok p"
  by (cases "fs_convert p") (simp_all add: os_stat_def os_path_ok_def)

lemma update_reread:
  assumes "os_stat fs (filepath t) = Inr s" and "s \<noteq> last_stat t"
  shows "\<exists>ls. read_last_n_lines fs (filepath t) (lines t) = Inr ls \<and>
              update fs t = (Inr True, t\<lparr>last_stat := s, content := ls\<rparr>)"
proof -
  from assms(1) have "os_path_ok (filepath t)" by (rule os_stat_ok_convertible)
  then obtain ls where "read_last_n_lines fs (filepath t) (lines t) = Inr ls"
    using read_returns_convertible by blast
  with assms show ?thesis by (simp add: update_def)
qed

lemma poll_tiles_pointwise:
  "poll_tiles fs ts redraw = (Inr r, ts') \<Longrightarrow> ts' = map (\<lambda>t. snd (update fs t)) ts"
proof (induction ts arbitrary: redraw r ts')
  case Nil
  then show ?case by simp
next
  case (Cons t ts)
  obtain o1 t1 where u: "update fs t = (o1, t1)" by (cases "update fs t")
  show ?case
  proof (cases o1)
    case (Inl e)
    with u Cons.prems show ?thesis by simp
  next
    case (Inr changed)
    obtain r2 rest' where p: "poll_tiles fs ts (if changed then True else redraw) = (r2, rest')"
      by (cases "poll_tiles fs ts (if changed then True else redraw)")
    with u Inr Cons.prems have "r2 = Inr r" "ts' = t1 # rest'" by simp_all
    with p Cons.IH [of "if changed then True else redraw" r rest'] u show ?thesis by simp
  qed
qed


lemma adjust_lines_count: "line_count (adjust_lines r d) = clamp (line_count r + d) 1 100"
  by (simp add: adjust_lines_def Let_def)

lemma adjust_lines_tiles:
  "tiles (adjust_lines r d) =
     map (\<lambda>tile. tile\<lparr>lines := clamp (line_count r + d) 1 100, last_stat := (0, 0)\<rparr>) (tiles r)"
  by (simp add: adjust_lines_def Let_def)

lemma clamp_bounds: "lo \<le> hi \<Longrightarrow> lo \<le> clamp v lo hi \<and> clamp v lo hi \<le> hi"
  by (simp add: clamp_def)

lemma raise_errno_OSError: "is_OSError (raise_errno errno)"
  by (cases errno) simp_all

lemma os_stat_not_OSError:
  assumes "os_stat fs p = Inl e" and "\<not> is_OSError e"
  shows "(e = ValueError \<or> e = UnicodeEncodeError) \<and> \<not> os_path_ok p"
proof (cases "fs_convert p")
  case (Some e')
  with assms(1) have "e = e'" by (simp add: os_stat_def)
  with Some show ?thesis using fs_convert_Some by blast
next
  case None
  with assms(1) obtain errno where "e = raise_errno errno"
    by (cases "fv_stat (fs p)") (auto simp: os_stat_def)
  with assms(2) show ?thesis by (simp add: raise_errno_OSError)
qed

lemma spec_last_n_length: "length (spec_last_n k xs) \<le> k"
  by (simp add: spec_last_n_def)

lemma read_length:
  assumes "1 \<le> n" and "read_last_n_lines fs p n = Inr ls"
  shows "int (length ls) \<le> n"
proof (cases "open_readlines fs p")
  case (Inl e)
  with assms(2) have "ls = []" by (auto simp: read_last_n_lines_def split: if_splits)
  with assms(1) show ?thesis by simp
next
  case (Inr raw)
  then have "read_last_n_lines fs p n =
      Inr (if raw \<noteq> [] then slice_from (map spec_strip raw) (- n) else [])"
    by (rule read_ok)
  with assms have "ls = spec_last_n (nat n) (map spec_strip raw)"
    by (simp add: slice_from_last_n spec_last_n_def split: if_splits)
  then have "length ls \<le> nat n" by (simp add: spec_last_n_length)
  with assms(1) show ?thesis by linarith
qed

lemma update_changed_bounded:
  assumes "1 \<le> lines t" and "fst (update fs t) = Inr True"
  shows "cache_bounded (snd (update fs t))"
proof (cases "os_stat fs (filepath t)")
  case (Inl e)
  show ?thesis
  proof (cases "is_OSError e")
    case True
    with Inl assms(1) show ?thesis by (simp add: update_stat_fail cache_bounded_def)
  next
    case False
    with Inl assms(2) show ?thesis by (simp add: update_def)
  qed
next
  case (Inr s)
  show ?thesis
  proof (cases "s = last_stat t")
    case True
    with Inr assms(2) show ?thesis by (simp add: update_same)
  next
    case False
    with Inr obtain ls where r: "read_last_n_lines fs (filepath t) (lines t) = Inr ls"
        and u: "update fs t = (Inr True, t\<lparr>last_stat := s, content := ls\<rparr>)"
      using update_reread by blast
    from assms(1) r have "int (length ls) \<le> lines t" by (rule read_length)
    with u show ?thesis by (simp add: cache_bounded_def)
  qed
qed

lemma update_unchanged_same:
  assumes "fst (update fs t) \<noteq> Inr True"
  shows "content (snd (update fs t)) = content t \<or> content (snd (update fs t)) = []"
proof (cases "os_stat fs (filepath t)")
  case (Inl e)
  then show ?thesis by (simp add: update_def)
next
  case (Inr s)
  show ?thesis
  proof (cases "s = last_stat t")
    case True
    with Inr show ?thesis by (simp add: update_same)
  next
    case False
    with Inr obtain ls where "update fs t = (Inr True, t\<lparr>last_stat := s, content := ls\<rparr>)"
      using update_reread by blast
    with assms show ?thesis by simp
  qed
qed

lemma update_lines: "lines (snd (update fs t)) = lines t"
  by (simp add: update_def Let_def split: sum.splits)

lemma mutate_length: "length (mutate h r m) = length h"
  by (simp add: mutate_def)

lemma mutate_other: "a \<noteq> r \<Longrightarrow> mutate h r m ! a = h ! a"
  by (simp add: mutate_def)

lemma mutate_all_frame: "a \<noteq> r \<Longrightarrow> length (mutate_all h r ms) = length h \<and> mutate_all h r ms ! a = h ! a"
  unfolding mutate_all_def
  by (induction ms arbitrary: h) (simp_all add: mutate_length mutate_other)

lemma update_again:
  "update fs t = (Inr b, t1) \<Longrightarrow> update fs t1 = (Inr False, t1)"
proof -
  assume u: "update fs t = (Inr b, t1)"
  show ?thesis
  proof (cases "os_stat fs (filepath t)")
    case (Inl e)
    with u have os: "is_OSError e" by (auto simp: update_def split: if_splits)
    with Inl u have t1: "t1 = t\<lparr>content := []\<rparr>" by (simp add: update_stat_fail)
    with Inl os show ?thesis by (simp add: update_def)
  next
    case (Inr s)
    show ?thesis
    proof (cases "s = last_stat t")
      case True
      with Inr u have "t1 = t" by (simp add: update_same)
      with Inr True show ?thesis by (simp add: update_same)
    next
      case False
      with Inr obtain ls where "update fs t = (Inr True, t\<lparr>last_stat := s, content := ls\<rparr>)"
        using update_reread by blast
      with u have "t1 = t\<lparr>last_stat := s, content := ls\<rparr>" by simp
      with Inr show ?thesis by (simp add: update_def)
    qed
  qed
qed

lemma update_raises_only:
  assumes "fst (update fs t) = Inl e"
  shows "update fs t = (Inl e, t) \<and> (e = ValueError \<or> e = UnicodeEncodeError)
         \<and> \<not> os_path_ok (filepath t)"
proof (cases "os_stat fs (filepath t)")
  case (Inl e')
  show ?thesis
  proof (cases "is_OSError e'")
    case True
    with Inl assms show ?thesis by (simp add: update_stat_fail)
  next
    case False
    with Inl have "(e' = ValueError \<or> e' = UnicodeEncodeError) \<and> \<not> os_path_ok (filepath t)"
      by (rule os_stat_not_OSError)
    moreover from Inl False have "update fs t = (Inl e', t)" by (simp add: update_def)
    moreover from this assms have "e = e'" by simp
    ultimately show ?thesis by simp
  qed
next
  case (Inr s)
  show ?thesis
  proof (cases "s = last_stat t")
    case True
    with Inr assms show ?thesis by (simp add: update_same)
  next
    case False
    with Inr obtain ls where "update fs t = (Inr True, t\<lparr>last_stat := s, content := ls\<rparr>)"
      using update_reread by blast
    with assms show ?thesis by simp
  qed
qed

lemma fs_convert_unconvertible:
  "\<not> os_path_ok p \<Longrightarrow> \<exists>e. fs_convert p = Some e \<and> (e = ValueError \<or> e = UnicodeEncodeError)"
  by (cases "fs_convert p") (auto simp: os_path_ok_def dest: fs_convert_Some)


lemma update_unconvertible:
  assumes "\<not> os_path_ok (filepath t)"
  shows "\<exists>e. update fs t = (Inl e, t) \<and> (e = ValueError \<or> e = UnicodeEncodeError)"
proof -
  from assms obtain e where e: "fs_convert (filepath t) = Some e"
      "e = ValueError \<or> e = UnicodeEncodeError"
    using fs_convert_unconvertible by blast
  then have "os_stat fs (filepath t) = Inl e" by (simp add: os_stat_def)
  with e(2) have "update fs t = (Inl e, t)" by (auto simp: update_def)
  with e(2) show ?thesis by blast
qed

lemma update_returns_convertible:
  "os_path_ok (filepath t) \<Longrightarrow> \<exists>b. fst (update fs t) = Inr b"
  using update_raises_only [of fs t] by (cases "fst (update fs t)") auto

subsection \<open>The claims\<close>




text \<open>
  \<^bold>\<open>C7.\<close> For all integers with \<open>lo \<le> hi\<close>, \<open>clamp v lo hi\<close> is \<open>lo\<close> when \<open>v < lo\<close>,
  \<open>hi\<close> when \<open>v > hi\<close>, and \<open>v\<close> otherwise.
\<close>

theorem clamp_cases:
  "lo \<le> hi \<Longrightarrow> clamp v lo hi = (if v < lo then lo else if hi < v then hi else v)"
  by (simp add: clamp_def)

theorem clamp_cases_witness:
  "(1::int) \<le> 100 \<and> clamp 101 1 100 = 100 \<and> clamp 0 1 100 = 1 \<and> clamp 42 1 100 = 42"
  using clamp_cases [of 1 100 101] clamp_cases [of 1 100 0] clamp_cases [of 1 100 42]
  by simp

text \<open>
  \<^bold>\<open>C10.\<close> For an existing, readable, non-empty file, \<open>read_last_n_lines\<close> with
  \<open>n = 0\<close> returns all the lines of the file, which is not the empty list.
\<close>

theorem read_zero_returns_all:
  assumes "os_path_ok path" and "fv_text (fs path) = Inr body" and "body \<noteq> []"
  shows "read_last_n_lines fs path 0 = Inr (map (\<lambda>l. rstrip l [LF, CR]) (readlines body))
         \<and> map (\<lambda>l. rstrip l [LF, CR]) (readlines body) \<noteq> []"
  using assms
  by (simp add: read_last_n_lines_def open_readlines_convertible slice_from_zero readlines_Nil_iff)

theorem read_zero_returns_all_witness:
  "os_path_ok a_log
   \<and> fv_text (fs_three a_log) = Inr [CHR ''x'', LF, CHR ''y'', LF, CHR ''z'', LF]
   \<and> [CHR ''x'', LF, CHR ''y'', LF, CHR ''z'', LF] \<noteq> []
   \<and> read_last_n_lines fs_three a_log 0 = Inr [''x'', ''y'', ''z'']"
proof -
  have a: "os_path_ok a_log" by (simp add: path_defs)
  have f: "fv_text (fs_three a_log) = Inr [CHR ''x'', LF, CHR ''y'', LF, CHR ''z'', LF]"
    by (simp add: fs_three_def)
  have b: "[CHR ''x'', LF, CHR ''y'', LF, CHR ''z'', LF] \<noteq> []" by simp
  from read_zero_returns_all [of a_log fs_three "[CHR ''x'', LF, CHR ''y'', LF, CHR ''z'', LF]"] a f b
  have "read_last_n_lines fs_three a_log 0 = Inr [''x'', ''y'', ''z'']"
    by (simp add: LF_def CR_def rstrip_def)
  with a f b show ?thesis by (simp only: simp_thms)
qed

text \<open>
  \<^bold>\<open>C5.\<close> A second \<open>update\<close> against the same file system leaves the tile, and so
  its cached content, exactly as the first call left it and never reports ``changed''.
  For every path that the interpreter can convert to an operating-system path it reports
  ``unchanged''; for every other path both calls raise the same \<^verbatim>\<open>ValueError\<close> or
  \<^verbatim>\<open>UnicodeEncodeError\<close>.
\<close>

theorem update_twice_unchanged:
  "snd (update fs (snd (update fs t))) = snd (update fs t)
   \<and> fst (update fs (snd (update fs t))) \<noteq> Inr True
   \<and> (os_path_ok (filepath t) \<longrightarrow> fst (update fs (snd (update fs t))) = Inr False)
   \<and> (\<not> os_path_ok (filepath t) \<longrightarrow>
         (\<exists>e. fst (update fs t) = Inl e \<and> fst (update fs (snd (update fs t))) = Inl e
               \<and> (e = ValueError \<or> e = UnicodeEncodeError)))"
proof (cases "fst (update fs t)")
  case (Inl e)
  then have "update fs t = (Inl e, t) \<and> (e = ValueError \<or> e = UnicodeEncodeError)
      \<and> \<not> os_path_ok (filepath t)"
    by (rule update_raises_only)
  then show ?thesis by simp
next
  case (Inr b)
  have ok: "os_path_ok (filepath t)"
  proof (rule ccontr)
    assume "\<not> os_path_ok (filepath t)"
    then obtain e where "update fs t = (Inl e, t)" using update_unconvertible by blast
    with Inr show False by simp
  qed
  from Inr have "update fs t = (Inr b, snd (update fs t))" by (simp add: prod_eq_iff)
  then have "update fs (snd (update fs t)) = (Inr False, snd (update fs t))"
    by (rule update_again)
  with ok show ?thesis by simp
qed

theorem update_twice_unchanged_witness:
  "os_path_ok (filepath (TailTile a_log 2))
   \<and> \<not> os_path_ok (filepath (TailTile surrogate_path 2))
   \<and> fst (update fs_three (snd (update fs_three (TailTile surrogate_path 2)))) \<noteq> Inr False
   \<and> update fs_three (TailTile a_log 2) =
     (Inr True, \<lparr>filepath = a_log, lines = 2, content = [''y'', ''z''], last_stat = (5, 6)\<rparr>)
   \<and> update fs_three \<lparr>filepath = a_log, lines = 2, content = [''y'', ''z''], last_stat = (5, 6)\<rparr> =
     (Inr False, \<lparr>filepath = a_log, lines = 2, content = [''y'', ''z''], last_stat = (5, 6)\<rparr>)"
proof -
  have n: "os_path_ok (filepath (TailTile a_log 2))" by (simp add: TailTile_def path_defs)
  have first: "update fs_three (TailTile a_log 2) =
     (Inr True, \<lparr>filepath = a_log, lines = 2, content = [''y'', ''z''], last_stat = (5, 6)\<rparr>)"
    by (simp add: update_def os_stat_def read_last_n_lines_def open_readlines_def TailTile_def
        fs_three_def path_defs LF_def CR_def rstrip_def slice_from_def)
  have u: "\<not> os_path_ok (filepath (TailTile surrogate_path 2))"
    by (simp add: TailTile_def path_defs surrogate_path_def)
  from update_twice_unchanged [of fs_three "TailTile surrogate_path 2"] u
  have r: "fst (update fs_three (snd (update fs_three (TailTile surrogate_path 2)))) \<noteq> Inr False"
    by auto
  from update_twice_unchanged [of fs_three "TailTile a_log 2"] n first
  have "update fs_three \<lparr>filepath = a_log, lines = 2, content = [''y'', ''z''], last_stat = (5, 6)\<rparr> =
     (Inr False, \<lparr>filepath = a_log, lines = 2, content = [''y'', ''z''], last_stat = (5, 6)\<rparr>)"
    by (simp add: prod_eq_iff)
  with n u r first show ?thesis by (simp only: simp_thms)
qed

text \<open>
  For a tile whose path holds a null character the second call, like the first, raises
  \<^verbatim>\<open>ValueError\<close> and so reports nothing.
\<close>

theorem update_twice_raises_counterexample:
  "fst (update fs_none (TailTile nul_path 10)) = Inl ValueError
   \<and> fst (update fs_none (snd (update fs_none (TailTile nul_path 10)))) = Inl ValueError"
  by (simp add: update_def os_stat_def TailTile_def path_defs nul_path_def)

text \<open>
  \<^bold>\<open>C2.\<close> When \<^verbatim>\<open>os.stat\<close> fails with an operating-system error, \<open>update\<close> returns
  ``changed'' and empties the cache if the cache was non-empty, and returns ``unchanged''
  if it was empty. In a polling pass over the tiles, the tile of a deleted file ends with
  empty content and every other tile ends as its own \<open>update\<close> leaves it.
\<close>

theorem update_stat_failure_clears:
  assumes "os_stat fs (filepath t) = Inl e" and "is_OSError e"
  shows "update fs t = (Inr (content t \<noteq> []), t\<lparr>content := []\<rparr>)
       \<and> (\<forall>ts redraw r ts' i.
             i < length ts \<and> ts ! i = t \<and> poll_tiles fs ts redraw = (Inr r, ts') \<longrightarrow>
               length ts' = length ts \<and> content (ts' ! i) = []
               \<and> (\<forall>j<length ts. j \<noteq> i \<longrightarrow> ts' ! j = snd (update fs (ts ! j))))"
proof (intro conjI allI impI)
  show u: "update fs t = (Inr (content t \<noteq> []), t\<lparr>content := []\<rparr>)"
    using assms by (rule update_stat_fail)
  fix ts redraw r ts' i
  assume a: "i < length ts \<and> ts ! i = t \<and> poll_tiles fs ts redraw = (Inr r, ts')"
  then have ts': "ts' = map (\<lambda>t. snd (update fs t)) ts"
    using poll_tiles_pointwise by blast
  then show "length ts' = length ts" by simp
  from ts' a u show "content (ts' ! i) = []" by simp
  fix j
  assume "j < length ts" "j \<noteq> i"
  with ts' show "ts' ! j = snd (update fs (ts ! j))" by simp
qed

lemma poll_demo:
  "poll_tiles fs_other [tile_a, tile_b] False = (Inr True, [tile_a\<lparr>content := []\<rparr>, tile_b])"
  by (simp add: update_def os_stat_def fs_other_def absent_def tile_a_def tile_b_def path_defs)

theorem update_stat_failure_clears_witness:
  "os_stat fs_other (filepath tile_a) = Inl FileNotFoundError \<and> is_OSError FileNotFoundError
   \<and> content tile_a \<noteq> []
   \<and> update fs_other tile_a = (Inr True, tile_a\<lparr>content := []\<rparr>)
   \<and> poll_tiles fs_other [tile_a, tile_b] False = (Inr True, [tile_a\<lparr>content := []\<rparr>, tile_b])
   \<and> snd (update fs_other tile_b) = tile_b"
proof -
  have s: "os_stat fs_other (filepath tile_a) = Inl FileNotFoundError"
    by (simp add: os_stat_def fs_other_def absent_def tile_a_def path_defs)
  have o: "is_OSError FileNotFoundError" by simp
  have c: "content tile_a \<noteq> []" by (simp add: tile_a_def)
  note inst = update_stat_failure_clears [OF s o]
  from inst c have u: "update fs_other tile_a = (Inr True, tile_a\<lparr>content := []\<rparr>)" by simp
  from inst have every: "\<And>ts redraw r ts' i.
      i < length ts \<and> ts ! i = tile_a \<and> poll_tiles fs_other ts redraw = (Inr r, ts') \<longrightarrow>
        length ts' = length ts \<and> content (ts' ! i) = []
        \<and> (\<forall>j<length ts. j \<noteq> i \<longrightarrow> ts' ! j = snd (update fs_other (ts ! j)))"
    by blast
  from every [where ts = "[tile_a, tile_b]" and i = 0 and redraw = False and r = True
      and ts' = "[tile_a\<lparr>content := []\<rparr>, tile_b]"] poll_demo
  have others: "\<forall>j<length [tile_a, tile_b]. j \<noteq> 0 \<longrightarrow>
      [tile_a\<lparr>content := []\<rparr>, tile_b] ! j = snd (update fs_other ([tile_a, tile_b] ! j))"
    by simp
  have l: "(1::nat) < length [tile_a, tile_b]" by simp
  have n: "(1::nat) \<noteq> 0" by simp
  from others l n
  have "[tile_a\<lparr>content := []\<rparr>, tile_b] ! 1 = snd (update fs_other ([tile_a, tile_b] ! 1))"
    by blast
  then have b: "snd (update fs_other tile_b) = tile_b" by simp
  from s o c u poll_demo b show ?thesis by simp
qed

text \<open>
  \<^bold>\<open>C9.\<close> The stat-failure branch of \<open>update\<close> leaves the stored signature as it was.
  So when the file comes back with the very signature the tile has stored, the next
  \<open>update\<close> reports ``unchanged'' and the cache stays empty.
\<close>

theorem stat_failure_keeps_signature:
  assumes "os_stat fs1 (filepath t) = Inl e" and "is_OSError e"
  shows "last_stat (snd (update fs1 t)) = last_stat t
       \<and> (os_stat fs2 (filepath t) = Inr (last_stat t) \<longrightarrow>
            update fs2 (snd (update fs1 t)) = (Inr False, t\<lparr>content := []\<rparr>))"
  using assms by (simp add: update_stat_fail update_same)

theorem stat_failure_keeps_signature_witness:
  "os_stat fs_none (filepath tile_a) = Inl FileNotFoundError \<and> is_OSError FileNotFoundError
   \<and> os_stat fs_three (filepath tile_a) = Inr (last_stat tile_a)
   \<and> last_stat (snd (update fs_none tile_a)) = (5, 6)
   \<and> update fs_three (snd (update fs_none tile_a)) = (Inr False, tile_a\<lparr>content := []\<rparr>)"
proof -
  have s: "os_stat fs_none (filepath tile_a) = Inl FileNotFoundError"
    by (simp add: os_stat_def fs_none_def absent_def tile_a_def path_defs)
  have o: "is_OSError FileNotFoundError" by simp
  have r: "os_stat fs_three (filepath tile_a) = Inr (last_stat tile_a)"
    by (simp add: os_stat_def fs_three_def tile_a_def path_defs)
  have l: "last_stat tile_a = (5, 6)" by (simp add: tile_a_def)
  from stat_failure_keeps_signature [OF s o, of fs_three] s o r l show ?thesis by simp
qed

text \<open>
  \<^bold>\<open>C3.\<close> \<open>adjust_lines\<close> sets the display-wide count to the old count plus \<open>delta\<close>
  clamped to \<open>[1, 100]\<close> (so 100 plus 1 stays 100 and 1 minus 1 stays 1), gives that count
  to every tile and resets every tile's signature to \<open>(0, 0)\<close>. The next \<open>update\<close> of a
  tile whose file stats with a signature other than \<open>(0, 0)\<close> reads the file again with
  the new count.
\<close>

theorem adjust_lines_effect:
  "line_count (adjust_lines r d) = clamp (line_count r + d) 1 100
   \<and> 1 \<le> line_count (adjust_lines r d) \<and> line_count (adjust_lines r d) \<le> 100
   \<and> (line_count r = 100 \<longrightarrow> line_count (adjust_lines r 1) = 100)
   \<and> (line_count r = 1 \<longrightarrow> line_count (adjust_lines r (- 1)) = 1)
   \<and> length (tiles (adjust_lines r d)) = length (tiles r)
   \<and> (\<forall>i<length (tiles r).
         tiles (adjust_lines r d) ! i =
           (tiles r ! i)\<lparr>lines := line_count (adjust_lines r d), last_stat := (0, 0)\<rparr>
         \<and> (\<forall>fs s. os_stat fs (filepath (tiles r ! i)) = Inr s \<and> s \<noteq> (0, 0) \<longrightarrow>
               (\<exists>ls. read_last_n_lines fs (filepath (tiles r ! i)) (line_count (adjust_lines r d)) = Inr ls
                  \<and> update fs (tiles (adjust_lines r d) ! i) =
                      (Inr True, (tiles r ! i)\<lparr>lines := line_count (adjust_lines r d),
                                                 last_stat := s, content := ls\<rparr>))))"
proof -
  let ?lc = "clamp (line_count r + d) 1 100"
  have count: "line_count (adjust_lines r d) = ?lc" by (rule adjust_lines_count)
  have bounds: "1 \<le> ?lc \<and> ?lc \<le> 100" by (rule clamp_bounds) simp
  have top: "line_count r = 100 \<longrightarrow> line_count (adjust_lines r 1) = 100"
    by (simp add: adjust_lines_count clamp_def)
  have bottom: "line_count r = 1 \<longrightarrow> line_count (adjust_lines r (- 1)) = 1"
    by (simp add: adjust_lines_count clamp_def)
  have len: "length (tiles (adjust_lines r d)) = length (tiles r)"
    by (simp add: adjust_lines_tiles)
  have each: "\<forall>i<length (tiles r).
         tiles (adjust_lines r d) ! i = (tiles r ! i)\<lparr>lines := ?lc, last_stat := (0, 0)\<rparr>
         \<and> (\<forall>fs s. os_stat fs (filepath (tiles r ! i)) = Inr s \<and> s \<noteq> (0, 0) \<longrightarrow>
               (\<exists>ls. read_last_n_lines fs (filepath (tiles r ! i)) ?lc = Inr ls
                  \<and> update fs (tiles (adjust_lines r d) ! i) =
                      (Inr True, (tiles r ! i)\<lparr>lines := ?lc, last_stat := s, content := ls\<rparr>)))"
  proof (intro allI impI conjI)
    fix i assume i: "i < length (tiles r)"
    let ?t' = "(tiles r ! i)\<lparr>lines := ?lc, last_stat := (0, 0)\<rparr>"
    from i show eq: "tiles (adjust_lines r d) ! i = ?t'" by (simp add: adjust_lines_tiles)
    fix fs s assume a: "os_stat fs (filepath (tiles r ! i)) = Inr s \<and> s \<noteq> (0, 0)"
    then have "os_stat fs (filepath ?t') = Inr s" "s \<noteq> last_stat ?t'" by simp_all
    then obtain ls where "read_last_n_lines fs (filepath ?t') (lines ?t') = Inr ls"
      "update fs ?t' = (Inr True, ?t'\<lparr>last_stat := s, content := ls\<rparr>)"
      using update_reread by blast
    with eq show "\<exists>ls. read_last_n_lines fs (filepath (tiles r ! i)) ?lc = Inr ls
                  \<and> update fs (tiles (adjust_lines r d) ! i) =
                      (Inr True, (tiles r ! i)\<lparr>lines := ?lc, last_stat := s, content := ls\<rparr>)"
      by simp
  qed
  from count bounds top bottom len each show ?thesis by (simp only:) 
qed

theorem adjust_lines_effect_witness:
  "line_count (adjust_lines (TileRenderer [tile_a] (1, 1)) 1) = 11
   \<and> line_count (TileRenderer [TailTile a_log 100] (1, 1)) = 100
   \<and> line_count (adjust_lines (TileRenderer [TailTile a_log 100] (1, 1)) 1) = 100
   \<and> line_count (TileRenderer [TailTile a_log 1] (1, 1)) = 1
   \<and> line_count (adjust_lines (TileRenderer [TailTile a_log 1] (1, 1)) (- 1)) = 1
   \<and> 0 < length (tiles (TileRenderer [tile_a] (1, 1)))
   \<and> os_stat fs_three (filepath (tiles (TileRenderer [tile_a] (1, 1)) ! 0)) = Inr (5, 6)
   \<and> (5, 6) \<noteq> (0 :: real, 0 :: int)
   \<and> update fs_three (tiles (adjust_lines (TileRenderer [tile_a] (1, 1)) 1) ! 0) =
       (Inr True, \<lparr>filepath = a_log, lines = 11, content = [''x'', ''y'', ''z''], last_stat = (5, 6)\<rparr>)"
proof -
  let ?r = "TileRenderer [tile_a] (1, 1)"
  note a = adjust_lines_effect [of ?r 1]
  have lc0: "line_count ?r = 10" by (simp add: TileRenderer_def tile_a_def)
  from a lc0 have lc: "line_count (adjust_lines ?r 1) = 11" by (simp add: clamp_def)
  have h100: "line_count (TileRenderer [TailTile a_log 100] (1, 1)) = 100"
    by (simp add: TileRenderer_def TailTile_def)
  have h1: "line_count (TileRenderer [TailTile a_log 1] (1, 1)) = 1"
    by (simp add: TileRenderer_def TailTile_def)
  from adjust_lines_effect [of "TileRenderer [TailTile a_log 100] (1, 1)" 1] h100
  have top: "line_count (adjust_lines (TileRenderer [TailTile a_log 100] (1, 1)) 1) = 100"
    by blast
  from adjust_lines_effect [of "TileRenderer [TailTile a_log 1] (1, 1)" "- 1"] h1
  have bottom: "line_count (adjust_lines (TileRenderer [TailTile a_log 1] (1, 1)) (- 1)) = 1"
    by blast
  have i: "0 < length (tiles ?r)" by (simp add: TileRenderer_def)
  have t0: "tiles ?r ! 0 = tile_a" by (simp add: TileRenderer_def)
  have st: "os_stat fs_three (filepath (tiles ?r ! 0)) = Inr (5, 6)"
    unfolding t0 by (simp add: os_stat_def fs_three_def tile_a_def path_defs)
  have ne: "(5, 6) \<noteq> (0 :: real, 0 :: int)" by simp
  have rd: "read_last_n_lines fs_three (filepath (tiles ?r ! 0)) 11 = Inr [''x'', ''y'', ''z'']"
    unfolding t0
    by (simp add: read_last_n_lines_def open_readlines_def fs_three_def tile_a_def path_defs
        LF_def CR_def rstrip_def slice_from_def)
  from a i have "\<forall>fs s. os_stat fs (filepath (tiles ?r ! 0)) = Inr s \<and> s \<noteq> (0, 0) \<longrightarrow>
      (\<exists>ls. read_last_n_lines fs (filepath (tiles ?r ! 0)) (line_count (adjust_lines ?r 1)) = Inr ls
         \<and> update fs (tiles (adjust_lines ?r 1) ! 0) =
             (Inr True, (tiles ?r ! 0)\<lparr>lines := line_count (adjust_lines ?r 1),
                                        last_stat := s, content := ls\<rparr>))"
    by blast
  with st ne obtain ls where
      "read_last_n_lines fs_three (filepath (tiles ?r ! 0)) (line_count (adjust_lines ?r 1)) = Inr ls"
      "update fs_three (tiles (adjust_lines ?r 1) ! 0) =
         (Inr True, (tiles ?r ! 0)\<lparr>lines := line_count (adjust_lines ?r 1),
                                    last_stat := (5, 6), content := ls\<rparr>)"
    by blast
  with rd lc t0 have "update fs_three (tiles (adjust_lines ?r 1) ! 0) =
       (Inr True, \<lparr>filepath = a_log, lines = 11, content = [''x'', ''y'', ''z''], last_stat = (5, 6)\<rparr>)"
    by (simp add: tile_a_def)
  with lc h100 top h1 bottom i st ne show ?thesis by (simp only: simp_thms)
qed

text \<open>
  The sentinel is a signature a file can have: an empty file whose modification time is
  the epoch stats as \<open>(0, 0)\<close>. For such a file the \<open>update\<close> that follows \<open>adjust_lines\<close>
  reports ``unchanged'' and keeps the stale cache, where a read would have returned the
  empty list.
\<close>

theorem adjust_lines_sentinel_counterexample:
  "os_stat fs_epoch a_log = Inr (0, 0)
   \<and> tiles (adjust_lines (TileRenderer [tile_a] (1, 1)) 1) ! 0 =
       \<lparr>filepath = a_log, lines = 11, content = [''x'', ''y'', ''z''], last_stat = (0, 0)\<rparr>
   \<and> update fs_epoch (tiles (adjust_lines (TileRenderer [tile_a] (1, 1)) 1) ! 0) =
       (Inr False, \<lparr>filepath = a_log, lines = 11, content = [''x'', ''y'', ''z''], last_stat = (0, 0)\<rparr>)
   \<and> read_last_n_lines fs_epoch a_log 11 = Inr []"
  by (simp add: adjust_lines_def TileRenderer_def tile_a_def clamp_def update_def os_stat_def
      fs_epoch_def path_defs read_last_n_lines_def open_readlines_def)

text \<open>
  \<^bold>\<open>C4.\<close> \<open>update\<close> returns for every path that the interpreter can convert to an
  operating-system path, whatever the state of the tile; the only exceptions that leave
  it are the \<^verbatim>\<open>ValueError\<close> and the \<^verbatim>\<open>UnicodeEncodeError\<close> of a path that cannot be
  converted, and for such a path it does raise and leaves the tile as it was. Every operating-system failure is absorbed and leaves the cache empty: a
  failing \<^verbatim>\<open>os.stat\<close>, and a failing \<^verbatim>\<open>open\<close> or read after a changed signature.
\<close>

theorem update_absorbs_os_errors:
  "(os_path_ok (filepath t) \<longrightarrow> (\<exists>b. fst (update fs t) = Inr b))
   \<and> (\<forall>e. fst (update fs t) = Inl e \<longrightarrow>
          (e = ValueError \<or> e = UnicodeEncodeError) \<and> \<not> os_path_ok (filepath t))
   \<and> (\<not> os_path_ok (filepath t) \<longrightarrow>
         (\<exists>e. update fs t = (Inl e, t) \<and> (e = ValueError \<or> e = UnicodeEncodeError)))
   \<and> (\<forall>e. os_stat fs (filepath t) = Inl e \<and> is_OSError e \<longrightarrow>
          content (snd (update fs t)) = [])
   \<and> (\<forall>s errno. os_stat fs (filepath t) = Inr s \<and> s \<noteq> last_stat t
          \<and> fv_text (fs (filepath t)) = Inl errno \<longrightarrow>
          update fs t = (Inr True, t\<lparr>last_stat := s, content := []\<rparr>))"
proof (intro conjI allI impI)
  show "\<exists>b. fst (update fs t) = Inr b" if "os_path_ok (filepath t)"
    using that by (rule update_returns_convertible)
  show "e = ValueError \<or> e = UnicodeEncodeError" if "fst (update fs t) = Inl e" for e
    using update_raises_only [OF that] by simp
  show "\<not> os_path_ok (filepath t)" if "fst (update fs t) = Inl e" for e
    using update_raises_only [OF that] by simp
  show "\<exists>e. update fs t = (Inl e, t) \<and> (e = ValueError \<or> e = UnicodeEncodeError)"
    if "\<not> os_path_ok (filepath t)"
    using that by (rule update_unconvertible)
  show "content (snd (update fs t)) = []" if "os_stat fs (filepath t) = Inl e \<and> is_OSError e" for e
    using that by (simp add: update_stat_fail)
  show "update fs t = (Inr True, t\<lparr>last_stat := s, content := []\<rparr>)"
    if a: "os_stat fs (filepath t) = Inr s \<and> s \<noteq> last_stat t \<and> fv_text (fs (filepath t)) = Inl errno"
    for s errno
  proof -
    from a have "os_path_ok (filepath t)" using os_stat_ok_convertible by blast
    with a have "read_last_n_lines fs (filepath t) (lines t) = Inr []"
      by (cases errno) (simp_all add: read_last_n_lines_def open_readlines_convertible)
    with a show ?thesis by (simp add: update_def)
  qed
qed

theorem update_absorbs_os_errors_witness:
  "os_path_ok (filepath tile_a) \<and> fst (update fs_none tile_a) = Inr True
   \<and> fst (update fs_none (TailTile surrogate_path 10)) = Inl UnicodeEncodeError
   \<and> \<not> os_path_ok surrogate_path
   \<and> os_stat fs_none (filepath tile_a) = Inl FileNotFoundError \<and> is_OSError FileNotFoundError
   \<and> content (snd (update fs_none tile_a)) = []
   \<and> os_stat fs_locked (filepath tile_a) = Inr (7, 6) \<and> (7, 6) \<noteq> last_stat tile_a
   \<and> fv_text (fs_locked (filepath tile_a)) = Inl EACCES
   \<and> update fs_locked tile_a = (Inr True, tile_a\<lparr>last_stat := (7, 6), content := []\<rparr>)"
proof -
  have n: "os_path_ok (filepath tile_a)" by (simp add: tile_a_def path_defs)
  have s: "os_stat fs_none (filepath tile_a) = Inl FileNotFoundError"
    by (simp add: os_stat_def fs_none_def absent_def tile_a_def path_defs)
  have o: "is_OSError FileNotFoundError" by simp
  have v: "fst (update fs_none (TailTile surrogate_path 10)) = Inl UnicodeEncodeError"
    by (simp add: update_def os_stat_def TailTile_def path_defs surrogate_path_def)
  have l: "os_stat fs_locked (filepath tile_a) = Inr (7, 6)"
    by (simp add: os_stat_def fs_locked_def tile_a_def path_defs)
  have d: "(7, 6) \<noteq> last_stat tile_a" by (simp add: tile_a_def)
  have x: "fv_text (fs_locked (filepath tile_a)) = Inl EACCES"
    by (simp add: fs_locked_def tile_a_def)
  note a = update_absorbs_os_errors [of tile_a fs_none]
  note b = update_absorbs_os_errors [of tile_a fs_locked]
  note c = update_absorbs_os_errors [of "TailTile surrogate_path 10" fs_none]
  from a s o have e: "content (snd (update fs_none tile_a)) = []" by blast
  have "content tile_a \<noteq> []" by (simp add: tile_a_def)
  with s o have t: "fst (update fs_none tile_a) = Inr True" by (simp add: update_stat_fail)
  from b l d x have u: "update fs_locked tile_a = (Inr True, tile_a\<lparr>last_stat := (7, 6), content := []\<rparr>)"
    by blast
  from c v have m: "\<not> os_path_ok (filepath (TailTile surrogate_path 10))" by blast
  then have m': "\<not> os_path_ok surrogate_path" by (simp add: TailTile_def)
  from n t v m' s o e l d x u show ?thesis by (simp only: simp_thms)
qed

text \<open>A path with a null character: \<^verbatim>\<open>os.stat\<close> raises \<^verbatim>\<open>ValueError\<close> and \<open>update\<close> lets it pass.\<close>

theorem update_raises_counterexample:
  "update fs_none (TailTile nul_path 10) = (Inl ValueError, TailTile nul_path 10)"
  by (simp add: update_def os_stat_def TailTile_def path_defs nul_path_def)

text \<open>
  \<^bold>\<open>C6.\<close> The cache is never longer than the requested count after construction with
  a count that is not negative, and every \<open>update\<close> of a tile whose count is at least 1
  keeps it so and establishes it whenever it reports ``changed''; \<open>update\<close> does not
  change the count. \<open>adjust_lines\<close> keeps the tiles in number, gives every tile the new
  display-wide count, which lies between 1 and 100, and keeps the bound of a tile whose
  count it does not lower.
\<close>

theorem cache_bounded_where_it_holds:
  "(0 \<le> n \<longrightarrow> cache_bounded (TailTile p n))
   \<and> lines (snd (update fs t)) = lines t
   \<and> (1 \<le> lines t \<and> cache_bounded t \<longrightarrow> cache_bounded (snd (update fs t)))
   \<and> (1 \<le> lines t \<and> fst (update fs t) = Inr True \<longrightarrow> cache_bounded (snd (update fs t)))
   \<and> length (tiles (adjust_lines r d)) = length (tiles r)
   \<and> (\<forall>i<length (tiles r).
         lines (tiles (adjust_lines r d) ! i) = line_count (adjust_lines r d)
         \<and> 1 \<le> lines (tiles (adjust_lines r d) ! i)
         \<and> lines (tiles (adjust_lines r d) ! i) \<le> 100
         \<and> (cache_bounded (tiles r ! i) \<and> lines (tiles r ! i) \<le> line_count (adjust_lines r d)
              \<longrightarrow> cache_bounded (tiles (adjust_lines r d) ! i)))"
proof (intro conjI allI impI)
  show "cache_bounded (TailTile p n)" if "0 \<le> n"
    using that by (simp add: cache_bounded_def TailTile_def)
  show "lines (snd (update fs t)) = lines t" by (rule update_lines)
  show "cache_bounded (snd (update fs t))" if a: "1 \<le> lines t \<and> cache_bounded t"
  proof (cases "fst (update fs t) = Inr True")
    case True
    with a show ?thesis by (simp add: update_changed_bounded)
  next
    case False
    then have "content (snd (update fs t)) = content t \<or> content (snd (update fs t)) = []"
      by (rule update_unchanged_same)
    with a show ?thesis by (auto simp: cache_bounded_def update_lines)
  qed
  show "cache_bounded (snd (update fs t))" if "1 \<le> lines t \<and> fst (update fs t) = Inr True"
    using that by (simp add: update_changed_bounded)
  show "length (tiles (adjust_lines r d)) = length (tiles r)"
    by (simp add: adjust_lines_tiles)
  fix i assume i: "i < length (tiles r)"
  have lc: "1 \<le> clamp (line_count r + d) 1 100 \<and> clamp (line_count r + d) 1 100 \<le> 100"
    using clamp_bounds [of 1 100] by simp
  from i show "lines (tiles (adjust_lines r d) ! i) = line_count (adjust_lines r d)"
    by (simp add: adjust_lines_tiles adjust_lines_count)
  from i lc show "1 \<le> lines (tiles (adjust_lines r d) ! i)"
    by (simp add: adjust_lines_tiles)
  from i lc show "lines (tiles (adjust_lines r d) ! i) \<le> 100"
    by (simp add: adjust_lines_tiles)
  show "cache_bounded (tiles (adjust_lines r d) ! i)"
    if "cache_bounded (tiles r ! i) \<and> lines (tiles r ! i) \<le> line_count (adjust_lines r d)"
    using that i by (simp add: adjust_lines_tiles adjust_lines_count cache_bounded_def)
qed

theorem cache_bounded_where_it_holds_witness:
  "(0::int) \<le> 3 \<and> cache_bounded (TailTile a_log 3)
   \<and> 1 \<le> lines (TailTile a_log 3)
   \<and> fst (update fs_three (TailTile a_log 3)) = Inr True
   \<and> cache_bounded (snd (update fs_three (TailTile a_log 3)))
   \<and> 0 < length (tiles (TileRenderer [tile_a] (1, 1)))
   \<and> cache_bounded (tiles (TileRenderer [tile_a] (1, 1)) ! 0)
   \<and> lines (tiles (TileRenderer [tile_a] (1, 1)) ! 0)
        \<le> line_count (adjust_lines (TileRenderer [tile_a] (1, 1)) 1)
   \<and> cache_bounded (tiles (adjust_lines (TileRenderer [tile_a] (1, 1)) 1) ! 0)
   \<and> lines (tiles (adjust_lines (TileRenderer [tile_a] (1, 1)) 1) ! 0) = 11"
proof -
  let ?t = "TailTile a_log 3"
  let ?r = "TileRenderer [tile_a] (1, 1)"
  note a = cache_bounded_where_it_holds [of 3 "a_log" fs_three ?t ?r 1]
  have n: "(0::int) \<le> 3" by simp
  with a have c0: "cache_bounded ?t" by blast
  have l: "1 \<le> lines ?t" by (simp add: TailTile_def)
  have u: "fst (update fs_three ?t) = Inr True"
    by (simp add: update_def os_stat_def TailTile_def fs_three_def path_defs read_last_n_lines_def
        open_readlines_def)
  from a l u have c1: "cache_bounded (snd (update fs_three ?t))" by blast
  have i: "0 < length (tiles ?r)" by (simp add: TileRenderer_def)
  have b: "cache_bounded (tiles ?r ! 0)"
    by (simp add: TileRenderer_def tile_a_def cache_bounded_def)
  have m: "lines (tiles ?r ! 0) \<le> line_count (adjust_lines ?r 1)"
    by (simp add: TileRenderer_def tile_a_def adjust_lines_def clamp_def)
  from a i b m have c2: "cache_bounded (tiles (adjust_lines ?r 1) ! 0)" by blast
  have k: "line_count (adjust_lines ?r 1) = 11"
    by (simp add: TileRenderer_def tile_a_def adjust_lines_def clamp_def)
  from a i have "lines (tiles (adjust_lines ?r 1) ! 0) = line_count (adjust_lines ?r 1)" by blast
  with k have c3: "lines (tiles (adjust_lines ?r 1) ! 0) = 11" by simp
  from n c0 l u c1 i b m c2 c3 show ?thesis by (simp only: simp_thms)
qed

text \<open>
  Lowering the count breaks the bound until the next read: a tile that caches three lines
  under a count of three has a count of two after \<open>adjust_lines\<close> with \<open>- 1\<close>, and still
  three cached lines.
\<close>

theorem cache_bounded_counterexample:
  "cache_bounded (snd (update fs_three (TailTile a_log 3)))
   \<and> \<not> cache_bounded
        (tiles (adjust_lines (TileRenderer [snd (update fs_three (TailTile a_log 3))] (1, 1)) (- 1)) ! 0)"
  by (simp add: cache_bounded_def adjust_lines_def TileRenderer_def clamp_def update_def
      os_stat_def TailTile_def fs_three_def path_defs read_last_n_lines_def open_readlines_def
      LF_def CR_def rstrip_def slice_from_def)

text \<open>
  \<^bold>\<open>C8.\<close> \<open>get_content\<close> returns a new list object with the cached lines. Whatever
  sequence of appends, deletions, replacements and clears the caller applies to it, the
  list object of the tile is as before, and a later \<open>get_content\<close> returns the same
  lines.
\<close>

theorem get_content_is_copy:
  assumes "obj_content self < length h" and "get_content h self = (r, h1)"
  shows "r \<noteq> obj_content self
       \<and> h1 ! r = h ! obj_content self
       \<and> h1 ! obj_content self = h ! obj_content self
       \<and> tile_of (mutate_all h1 r ms) self = tile_of h self
       \<and> snd (get_content (mutate_all h1 r ms) self) ! fst (get_content (mutate_all h1 r ms) self)
           = h ! obj_content self"
proof -
  let ?a = "obj_content self"
  from assms(2) have r: "r = length h" and h1: "h1 = h @ [h ! ?a]"
    by (simp_all add: get_content_def list_copy_def)
  from r assms(1) have ne: "?a \<noteq> r" by simp
  from h1 r have copy: "h1 ! r = h ! ?a" by simp
  from h1 assms(1) have same: "h1 ! ?a = h ! ?a" by (simp add: nth_append)
  from ne have fr: "mutate_all h1 r ms ! ?a = h1 ! ?a" by (simp add: mutate_all_frame)
  with same have kept: "mutate_all h1 r ms ! ?a = h ! ?a" by simp
  then have tile: "tile_of (mutate_all h1 r ms) self = tile_of h self"
    by (simp add: tile_of_def)
  have again: "snd (get_content (mutate_all h1 r ms) self) ! fst (get_content (mutate_all h1 r ms) self)
      = mutate_all h1 r ms ! ?a"
    by (simp add: get_content_def list_copy_def)
  from ne copy same tile again kept show ?thesis by simp
qed

theorem get_content_is_copy_witness:
  "obj_content obj_a < length [[''x'', ''y'']]
   \<and> get_content [[''x'', ''y'']] obj_a = (1, [[''x'', ''y''], [''x'', ''y'']])
   \<and> mutate_all [[''x'', ''y''], [''x'', ''y'']] 1 [Append ''z'', DelItem 0, SetItem 0 ''q'']
        = [[''x'', ''y''], [''q'', ''z'']]
   \<and> tile_of [[''x'', ''y''], [''q'', ''z'']] obj_a = tile_of [[''x'', ''y'']] obj_a
   \<and> snd (get_content [[''x'', ''y''], [''q'', ''z'']] obj_a)
        ! fst (get_content [[''x'', ''y''], [''q'', ''z'']] obj_a) = [''x'', ''y'']"
proof -
  have v: "obj_content obj_a < length [[''x'', ''y'']]" by (simp add: obj_a_def)
  have g: "get_content [[''x'', ''y'']] obj_a = (1, [[''x'', ''y''], [''x'', ''y'']])"
    by (simp add: get_content_def list_copy_def obj_a_def)
  have m: "mutate_all [[''x'', ''y''], [''x'', ''y'']] 1 [Append ''z'', DelItem 0, SetItem 0 ''q'']
        = [[''x'', ''y''], [''q'', ''z'']]"
    by (simp add: mutate_all_def mutate_def)
  have z: "[[''x'', ''y'']] ! obj_content obj_a = [''x'', ''y'']" by (simp add: obj_a_def)
  from get_content_is_copy [OF v g, of "[Append ''z'', DelItem 0, SetItem 0 ''q'']"] v g m z
  show ?thesis by simp
qed

end
